theory Spec2Isabelle
  imports
    Complex_Main
    "HOL-Library.Char_ord"
    "HOL-Library.List_Lexorder"
    "HOL-Library.Option_ord"
    "HOL-Library.Multiset"
begin

section \<open>The transaction store\<close>

text \<open>
  The table \<open>transactions\<close> of \<open>db.py\<close>. A \<open>row\<close> holds the ten columns that
  \<open>SwapAnalyzer._group_transactions\<close> selects (what a \<open>sqlite3.Row\<close> of that query
  carries); a \<open>txn\<close> is a stored row: the selected columns extended by the columns the query
  leaves out, among them the eight enrichment columns. The column \<open>id\<close> is \<open>row_id\<close> and
  the column \<open>value\<close> is \<open>val\<close>. SQL \<open>NULL\<close> is \<open>None\<close>; columns declared
  \<open>NOT NULL\<close> have no option.

  Numbers: the source computes with \<open>Decimal\<close> and converts to \<open>float\<close> where it
  binds the parameters of the \<open>UPDATE\<close>. Both are modelled by exact rationals, so the
  rounding of \<open>Decimal\<close> division and of \<open>float()\<close> is not part of this model.
\<close>

record row =
  row_id :: int
  chain :: string
  tx_hash :: string
  block_timestamp :: "string option"
  from_address :: "string option"
  to_address :: "string option"
  asset :: "string option"
  val :: "rat option"
  category :: "string option"
  contract_address :: "string option"

record txn = row +
  unique_id :: string
  block_number :: "int option"
  raw_value_wei :: "string option"
  erc721_token_id :: "string option"
  erc1155_metadata :: "string option"
  is_swap :: int
  swap_spent_asset :: "string option"
  swap_spent_amount :: "rat option"
  swap_spent_usd :: "rat option"
  swap_btc_price_at_purchase :: "rat option"
  swap_btc_amount :: "rat option"
  swap_btc_price_current :: "rat option"
  swap_btc_value_usd :: "rat option"
  raw_json :: "string option"
  created_at :: "string option"

text \<open>
  The store is the list of its rows in the order a table scan yields them. \<open>id\<close> is the
  primary key, so the rows of a real store have pairwise different ids (\<open>distinct_ids\<close>).
\<close>

definition distinct_ids :: "txn list \<Rightarrow> bool" where
  "distinct_ids db = distinct (map row_id db)"

text \<open>The column list of the \<open>SELECT\<close> in \<open>_group_transactions\<close>.\<close>

definition select_row :: "txn \<Rightarrow> row" where
  "select_row t = row.truncate t"

text \<open>
  \<open>UPDATE transactions SET ... WHERE id = ?\<close>, and \<open>executemany\<close> running it once for
  each parameter tuple in turn.
\<close>

definition update_where_id :: "(txn \<Rightarrow> txn) \<Rightarrow> int \<Rightarrow> txn list \<Rightarrow> txn list" where
  "update_where_id f i db = map (\<lambda>t. if row_id t = i then f t else t) db"

definition executemany :: "(txn \<Rightarrow> txn) \<Rightarrow> int list \<Rightarrow> txn list \<Rightarrow> txn list" where
  "executemany f ids db = fold (update_where_id f) ids db"

section \<open>The price oracle\<close>

text \<open>
  \<open>CoinGeckoError\<close> is the failure of the price oracle, \<open>ValueError\<close> the one the
  constructor of \<open>SwapAnalyzer\<close> raises. The client is its three methods; each returns a
  value or raises \<open>CoinGeckoError\<close>, which is \<open>None\<close> here. A client is a function of
  its arguments: asked the same question it gives the same answer, which is what the
  client's caches assume. Exceptions of the HTTP library below the client are not modelled.
  \<open>KeyError\<close> is what a dictionary raises for a missing key.
\<close>

datatype error = CoinGeckoError | ValueError | KeyError

type_synonym timestamp = int

record cg_client =
  get_current_price :: "string \<Rightarrow> rat option"
  get_coin_id_by_contract :: "string \<Rightarrow> string \<Rightarrow> string option"
  get_price_at_timestamp :: "string \<Rightarrow> timestamp \<Rightarrow> rat option"

text \<open>A call of the client inside the analyzer: the value, or the exception raised.\<close>

definition call :: "'a option \<Rightarrow> error + 'a" where
  "call x = (case x of None \<Rightarrow> Inl CoinGeckoError | Some v \<Rightarrow> Inr v)"

text \<open>
  What the run takes from the Python runtime: \<open>datetime.fromisoformat\<close> followed by the
  conversion to UTC (\<open>None\<close> where it raises \<open>ValueError\<close>), the instant being seconds
  since the epoch, and the reading of \<open>datetime.utcnow()\<close>.
\<close>

record env =
  fromisoformat :: "string \<Rightarrow> timestamp option"
  utcnow :: timestamp

section \<open>Strings\<close>

text \<open>\<open>str.lower\<close> and \<open>str.upper\<close> on the ASCII letters; other bytes are kept.\<close>

definition lower_char :: "char \<Rightarrow> char" where
  "lower_char c =
     (if 65 \<le> (of_char c :: nat) \<and> (of_char c :: nat) \<le> 90
      then char_of (of_char c + (32 :: nat)) else c)"

definition upper_char :: "char \<Rightarrow> char" where
  "upper_char c =
     (if 97 \<le> (of_char c :: nat) \<and> (of_char c :: nat) \<le> 122
      then char_of (of_char c - (32 :: nat)) else c)"

definition lower :: "string \<Rightarrow> string" where
  "lower s = map lower_char s"

definition upper :: "string \<Rightarrow> string" where
  "upper s = map upper_char s"

text \<open>\<open>x or ""\<close> for an optional string.\<close>

definition or_empty :: "string option \<Rightarrow> string" where
  "or_empty x = (case x of None \<Rightarrow> [] | Some s \<Rightarrow> s)"

section \<open>The swap analyzer\<close>

record SpentComponent =
  sc_asset :: string
  amount :: rat
  usd_price :: rat

definition usd_value :: "SpentComponent \<Rightarrow> rat" where
  "usd_value c = amount c * usd_price c"

definition SYMBOL_TO_COINGECKO_ID :: "(string \<times> string) list" where
  "SYMBOL_TO_COINGECKO_ID =
     [(''ETH'', ''ethereum''), (''WETH'', ''weth''), (''USDC'', ''usd-coin''),
      (''USDT'', ''tether''), (''DAI'', ''dai''), (''WBTC'', ''wrapped-bitcoin''),
      (''BTC'', ''bitcoin'')]"

definition COINGECKO_PLATFORMS_BY_CHAIN :: "(string \<times> string) list" where
  "COINGECKO_PLATFORMS_BY_CHAIN =
     [(''ethereum'', ''ethereum''), (''base'', ''base''), (''arbitrum'', ''arbitrum-one'')]"

definition parse_timestamp :: "env \<Rightarrow> string option \<Rightarrow> timestamp option" where
  "parse_timestamp e ts =
     (case ts of
        None \<Rightarrow> None
      | Some s \<Rightarrow>
          if s = [] then None
          else fromisoformat e (if last s = CHR ''Z'' then butlast s @ ''+00:00'' else s))"

record swap_analyzer =
  wallet_address :: string
  cg :: cg_client

definition SwapAnalyzer_init :: "string \<Rightarrow> cg_client \<Rightarrow> error + swap_analyzer" where
  "SwapAnalyzer_init wallet client =
     (if wallet = [] then Inl ValueError
      else Inr \<lparr>wallet_address = lower wallet, cg = client\<rparr>)"

definition is_incoming :: "swap_analyzer \<Rightarrow> row \<Rightarrow> bool" where
  "is_incoming self r = (lower (or_empty (to_address r)) = wallet_address self)"

definition is_outgoing :: "swap_analyzer \<Rightarrow> row \<Rightarrow> bool" where
  "is_outgoing self r = (lower (or_empty (from_address r)) = wallet_address self)"

fun tx_timestamp :: "env \<Rightarrow> row list \<Rightarrow> timestamp option" where
  "tx_timestamp e [] = None"
| "tx_timestamp e (r # rows) =
     (case parse_timestamp e (block_timestamp r) of
        Some ts \<Rightarrow> Some ts
      | None \<Rightarrow> tx_timestamp e rows)"

definition resolve_coin_id ::
  "swap_analyzer \<Rightarrow> string \<Rightarrow> string option \<Rightarrow> string option \<Rightarrow> error + string" where
  "resolve_coin_id self ch a contract =
     (let symbol = upper (or_empty a) in
      if contract \<noteq> None \<and> contract \<noteq> Some [] then
        (case map_of COINGECKO_PLATFORMS_BY_CHAIN (lower ch) of
           None \<Rightarrow> Inl CoinGeckoError
         | Some platform \<Rightarrow>
             if platform = [] then Inl CoinGeckoError
             else call (get_coin_id_by_contract (cg self) platform (or_empty contract)))
      else
        (case map_of SYMBOL_TO_COINGECKO_ID symbol of
           Some coin_id \<Rightarrow> Inr coin_id
         | None \<Rightarrow> Inl CoinGeckoError))"

text \<open>
  \<open>_build_spent_components\<close>. The first loop fills two dictionaries: \<open>grouped\<close>, a
  \<open>defaultdict\<close> whose items are read back in insertion order (an association list), and
  \<open>chain_by_key\<close>, which is only looked up (a map). The second loop stops at the first
  exception.
\<close>

type_synonym asset_key = "string option \<times> string option"

fun add_amount :: "asset_key \<Rightarrow> rat \<Rightarrow> (asset_key \<times> rat) list \<Rightarrow> (asset_key \<times> rat) list" where
  "add_amount key a [] = [(key, 0 + a)]"
| "add_amount key a ((k, v) # kvs) =
     (if k = key then (k, v + a) # kvs else (k, v) # add_amount key a kvs)"

definition spent_step ::
  "row \<Rightarrow> (asset_key \<times> rat) list \<times> (asset_key \<rightharpoonup> string) \<Rightarrow>
   (asset_key \<times> rat) list \<times> (asset_key \<rightharpoonup> string)" where
  "spent_step r st =
     (case val r of
        None \<Rightarrow> st
      | Some a \<Rightarrow>
          if a \<le> 0 then st
          else (let key = (asset r, contract_address r)
                in (add_amount key a (fst st), (snd st)(key \<mapsto> chain r))))"

definition price_component ::
  "swap_analyzer \<Rightarrow> timestamp \<Rightarrow> (asset_key \<rightharpoonup> string) \<Rightarrow> asset_key \<times> rat \<Rightarrow>
   error + SpentComponent" where
  "price_component self ts chain_by_key item =
     (case chain_by_key (fst item) of
        None \<Rightarrow> Inl KeyError
      | Some ch \<Rightarrow>
          (case resolve_coin_id self ch (fst (fst item)) (snd (fst item)) of
             Inl err \<Rightarrow> Inl err
           | Inr coin_id \<Rightarrow>
               (case call (get_price_at_timestamp (cg self) coin_id ts) of
                  Inl err \<Rightarrow> Inl err
                | Inr price \<Rightarrow>
                    Inr \<lparr>sc_asset = or_empty (fst (fst item)), amount = snd item,
                         usd_price = price\<rparr>)))"

fun price_components ::
  "swap_analyzer \<Rightarrow> timestamp \<Rightarrow> (asset_key \<rightharpoonup> string) \<Rightarrow> (asset_key \<times> rat) list \<Rightarrow>
   error + SpentComponent list" where
  "price_components self ts chain_by_key [] = Inr []"
| "price_components self ts chain_by_key (item # items) =
     (case price_component self ts chain_by_key item of
        Inl err \<Rightarrow> Inl err
      | Inr c \<Rightarrow>
          (case price_components self ts chain_by_key items of
             Inl err \<Rightarrow> Inl err
           | Inr cs \<Rightarrow> Inr (c # cs)))"

definition aggregate_spent ::
  "row list \<Rightarrow> (asset_key \<times> rat) list \<times> (asset_key \<rightharpoonup> string)" where
  "aggregate_spent outgoing = fold spent_step outgoing ([], Map.empty)"

definition build_spent_components ::
  "swap_analyzer \<Rightarrow> row list \<Rightarrow> timestamp \<Rightarrow> error + SpentComponent list" where
  "build_spent_components self outgoing ts =
     (let st = aggregate_spent outgoing
      in price_components self ts (snd st) (fst st))"

text \<open>\<open>_mark_outgoing\<close> and \<open>_enrich_incoming\<close>, acting on the connection's table.\<close>

definition mark_outgoing :: "txn list \<Rightarrow> row list \<Rightarrow> txn list" where
  "mark_outgoing conn outgoing =
     (let ids = map row_id outgoing
      in if ids = [] then conn else executemany (\<lambda>t. t\<lparr>is_swap := 1\<rparr>) ids conn)"

text \<open>The seven values bound in every parameter tuple of \<open>_enrich_incoming\<close>.\<close>

record enrichment =
  spent_asset :: "string option"
  spent_amount :: "rat option"
  usd_spent_float :: "rat option"
  btc_price_purchase_float :: "rat option"
  btc_amount_float :: "rat option"
  btc_price_current_float :: "rat option"
  btc_value_float :: "rat option"

definition set_enrichment :: "enrichment \<Rightarrow> txn \<Rightarrow> txn" where
  "set_enrichment p t =
     t\<lparr>is_swap := 1,
       swap_spent_asset := spent_asset p,
       swap_spent_amount := spent_amount p,
       swap_spent_usd := usd_spent_float p,
       swap_btc_price_at_purchase := btc_price_purchase_float p,
       swap_btc_amount := btc_amount_float p,
       swap_btc_price_current := btc_price_current_float p,
       swap_btc_value_usd := btc_value_float p\<rparr>"

definition enrichment_of ::
  "SpentComponent list \<Rightarrow> rat option \<Rightarrow> rat option \<Rightarrow> rat option \<Rightarrow> rat \<Rightarrow> enrichment" where
  "enrichment_of spent_components total_usd_spent btc_price_at_purchase btc_amt btc_price_cur =
     \<lparr>spent_asset =
        (case spent_components of
           [] \<Rightarrow> None
         | [c] \<Rightarrow> Some (sc_asset c)
         | _ \<Rightarrow> Some ''MULTI''),
      spent_amount =
        (case spent_components of
           [c] \<Rightarrow> Some (amount c)
         | _ \<Rightarrow> None),
      usd_spent_float = total_usd_spent,
      btc_price_purchase_float = btc_price_at_purchase,
      btc_amount_float = btc_amt,
      btc_price_current_float = (case btc_amt of None \<Rightarrow> None | Some _ \<Rightarrow> Some btc_price_cur),
      btc_value_float = (case btc_amt of None \<Rightarrow> None | Some a \<Rightarrow> Some (a * btc_price_cur))\<rparr>"

definition enrich_incoming ::
  "txn list \<Rightarrow> row list \<Rightarrow> SpentComponent list \<Rightarrow> rat option \<Rightarrow> rat option \<Rightarrow> rat option \<Rightarrow>
   rat \<Rightarrow> txn list" where
  "enrich_incoming conn incoming spent_components total_usd_spent btc_price_at_purchase btc_amt
     btc_price_cur =
     (let p = enrichment_of spent_components total_usd_spent btc_price_at_purchase btc_amt
                btc_price_cur;
          ids = map row_id incoming
      in if ids = [] then conn else executemany (set_enrichment p) ids conn)"

text \<open>
  \<open>_group_transactions\<close>: the query orders by \<open>block_timestamp\<close> (SQLite puts
  \<open>NULL\<close> first and compares text bytewise); rows with equal keys are taken to stay in
  table order. The result is a \<open>defaultdict(list)\<close> in insertion order.
\<close>

definition fetchall :: "txn list \<Rightarrow> row list" where
  "fetchall db = sort_key block_timestamp (map select_row db)"

fun append_row :: "string \<Rightarrow> row \<Rightarrow> (string \<times> row list) list \<Rightarrow> (string \<times> row list) list" where
  "append_row h r [] = [(h, [r])]"
| "append_row h r ((k, rs) # g) =
     (if k = h then (k, rs @ [r]) # g else (k, rs) # append_row h r g)"

definition group_transactions :: "txn list \<Rightarrow> (string \<times> row list) list" where
  "group_transactions db = fold (\<lambda>r g. append_row (tx_hash r) r g) (fetchall db) []"

text \<open>
  \<open>analyze\<close>. The lines printed for a caught \<open>CoinGeckoError\<close> are the warnings.
  \<open>value_group\<close> is the valuation part of the loop body (from the reference time to
  \<open>btc_amount\<close>), \<open>analyze_group\<close> the whole body, \<open>analyze_loop\<close> the loop. An
  exception other than \<open>CoinGeckoError\<close> leaves the \<open>with\<close> block, which rolls the
  connection back.
\<close>

datatype warning = Skipped string | BtcLookupFailed string

record valuation =
  spent_components :: "SpentComponent list"
  total_usd_spent :: "rat option"
  btc_price_at_purchase :: "rat option"
  group_btc_amount :: "rat option"
  messages :: "warning list"

definition value_group ::
  "swap_analyzer \<Rightarrow> env \<Rightarrow> string \<Rightarrow> row list \<Rightarrow> error + valuation" where
  "value_group self e h rows =
     (let outgoing = filter (is_outgoing self) rows;
          ts = (case tx_timestamp e rows of Some t \<Rightarrow> t | None \<Rightarrow> utcnow e)
      in case (case build_spent_components self outgoing ts of
                 Inr cs \<Rightarrow> Inr (cs, [])
               | Inl CoinGeckoError \<Rightarrow> Inr ([], [Skipped h])
               | Inl err \<Rightarrow> Inl err) of
           Inl err \<Rightarrow> Inl err
         | Inr (cs, w1) \<Rightarrow>
             if cs \<noteq> [] then
               (let price = get_price_at_timestamp (cg self) ''bitcoin'' ts;
                    w2 = (case price of None \<Rightarrow> [BtcLookupFailed h] | Some _ \<Rightarrow> []);
                    total = sum_list (map usd_value cs)
                in Inr \<lparr>spent_components = cs,
                        total_usd_spent = Some total,
                        btc_price_at_purchase = price,
                        group_btc_amount =
                          (case price of
                             None \<Rightarrow> None
                           | Some p \<Rightarrow> if p \<noteq> 0 \<and> p > 0 then Some (total / p) else None),
                        messages = w1 @ w2\<rparr>)
             else
               Inr \<lparr>spent_components = cs, total_usd_spent = None,
                    btc_price_at_purchase = None, group_btc_amount = None,
                    messages = w1\<rparr>)"

record loop_state =
  total_btc_amount :: rat
  swaps :: nat
  conn :: "txn list"
  warnings :: "warning list"

definition analyze_group ::
  "swap_analyzer \<Rightarrow> env \<Rightarrow> rat \<Rightarrow> string \<times> row list \<Rightarrow> loop_state \<Rightarrow> error + loop_state" where
  "analyze_group self e btc_price_cur g st =
     (let outgoing = filter (is_outgoing self) (snd g);
          incoming = filter (is_incoming self) (snd g)
      in if outgoing = [] \<or> incoming = [] then Inr st
         else
           (case value_group self e (fst g) (snd g) of
              Inl err \<Rightarrow> Inl err
            | Inr v \<Rightarrow>
                Inr \<lparr>total_btc_amount =
                       (case group_btc_amount v of
                          None \<Rightarrow> total_btc_amount st
                        | Some a \<Rightarrow> if a \<noteq> 0 then total_btc_amount st + a
                                    else total_btc_amount st),
                     swaps = swaps st + 1,
                     conn = enrich_incoming (mark_outgoing (conn st) outgoing) incoming
                              (spent_components v) (total_usd_spent v)
                              (btc_price_at_purchase v) (group_btc_amount v) btc_price_cur,
                     warnings = warnings st @ messages v\<rparr>))"

fun analyze_loop ::
  "swap_analyzer \<Rightarrow> env \<Rightarrow> rat \<Rightarrow> (string \<times> row list) list \<Rightarrow> loop_state \<Rightarrow> error + loop_state" where
  "analyze_loop self e btc_price_cur [] st = Inr st"
| "analyze_loop self e btc_price_cur (g # gs) st =
     (case analyze_group self e btc_price_cur g st of
        Inl err \<Rightarrow> Inl err
      | Inr st' \<Rightarrow> analyze_loop self e btc_price_cur gs st')"

record summary =
  swaps_detected :: rat
  btc_amount :: rat
  btc_value_usd :: rat
  btc_price_current :: rat

text \<open>
  What a run leaves behind: the summary returned or the exception raised, the table after
  the connection is closed, and the warnings printed.
\<close>

record outcome =
  result :: "error + summary"
  store :: "txn list"
  printed :: "warning list"

definition analyze :: "swap_analyzer \<Rightarrow> env \<Rightarrow> txn list \<Rightarrow> outcome" where
  "analyze self e db =
     (let grouped = group_transactions db
      in if grouped = [] then
           \<lparr>result = Inr \<lparr>swaps_detected = 0, btc_amount = 0, btc_value_usd = 0,
                           btc_price_current = 0\<rparr>,
            store = db, printed = []\<rparr>
         else
           (case call (get_current_price (cg self) ''bitcoin'') of
              Inl err \<Rightarrow> \<lparr>result = Inl err, store = db, printed = []\<rparr>
            | Inr btc_price_cur \<Rightarrow>
                (case analyze_loop self e btc_price_cur grouped
                        \<lparr>total_btc_amount = 0, swaps = 0, conn = db, warnings = []\<rparr> of
                   Inl err \<Rightarrow> \<lparr>result = Inl err, store = db, printed = []\<rparr>
                 | Inr st \<Rightarrow>
                     \<lparr>result = Inr \<lparr>swaps_detected = of_nat (swaps st),
                                     btc_amount = total_btc_amount st,
                                     btc_value_usd = total_btc_amount st * btc_price_cur,
                                     btc_price_current = btc_price_cur\<rparr>,
                      store = conn st, printed = warnings st\<rparr>)))"

text \<open>\<open>main\<close>: construct the analyzer, then run it.\<close>

definition main :: "string \<Rightarrow> cg_client \<Rightarrow> env \<Rightarrow> txn list \<Rightarrow> outcome" where
  "main wallet client e db =
     (case SwapAnalyzer_init wallet client of
        Inl err \<Rightarrow> \<lparr>result = Inl err, store = db, printed = []\<rparr>
      | Inr self \<Rightarrow> analyze self e db)"

section \<open>Groups, legs and stored rows\<close>

text \<open>
  The notions the properties below are stated with. The legs of the group of transaction
  hash \<open>h\<close> are the selected rows with that hash, in load order; its outgoing and incoming
  partitions are as the loop body computes them; the group qualifies as a swap when both
  are non-empty. \<open>reference_time\<close> is the group's timestamp as the loop body takes it, and
  \<open>row_by_id\<close> reads the stored row with a given id.
\<close>

definition legs :: "txn list \<Rightarrow> string \<Rightarrow> row list" where
  "legs db h = filter (\<lambda>r. tx_hash r = h) (fetchall db)"

definition outgoing_legs :: "swap_analyzer \<Rightarrow> txn list \<Rightarrow> string \<Rightarrow> row list" where
  "outgoing_legs self db h = filter (is_outgoing self) (legs db h)"

definition incoming_legs :: "swap_analyzer \<Rightarrow> txn list \<Rightarrow> string \<Rightarrow> row list" where
  "incoming_legs self db h = filter (is_incoming self) (legs db h)"

definition qualifies :: "swap_analyzer \<Rightarrow> txn list \<Rightarrow> string \<Rightarrow> bool" where
  "qualifies self db h = (outgoing_legs self db h \<noteq> [] \<and> incoming_legs self db h \<noteq> [])"

definition reference_time :: "env \<Rightarrow> txn list \<Rightarrow> string \<Rightarrow> timestamp" where
  "reference_time e db h = (case tx_timestamp e (legs db h) of Some t \<Rightarrow> t | None \<Rightarrow> utcnow e)"

definition row_by_id :: "txn list \<Rightarrow> int \<Rightarrow> txn option" where
  "row_by_id db i = find (\<lambda>t. row_id t = i) db"

text \<open>
  The values of the outgoing legs that the aggregation keeps: those that are neither
  \<open>NULL\<close> nor non-positive.
\<close>

definition spent_values :: "row list \<Rightarrow> rat list" where
  "spent_values rows = concat (map (\<lambda>r. case val r of None \<Rightarrow> [] | Some a \<Rightarrow> if a \<le> 0 then [] else [a]) rows)"

text \<open>
  What one run with current reference price \<open>p\<close> makes of a stored row \<open>t\<close>: nothing
  when the group of \<open>t\<close> does not qualify; otherwise the enrichment of the group when
  \<open>t\<close> is incoming, the swap flag alone when it is only outgoing, nothing when it is
  neither. \<open>analyze_store\<close> below shows that this is what \<open>analyze\<close> does.
\<close>

definition settle :: "swap_analyzer \<Rightarrow> env \<Rightarrow> rat \<Rightarrow> txn list \<Rightarrow> txn \<Rightarrow> txn" where
  "settle self e p db t =
     (if \<not> qualifies self db (tx_hash t) then t
      else
        (case value_group self e (tx_hash t) (legs db (tx_hash t)) of
           Inl err \<Rightarrow> t
         | Inr v \<Rightarrow>
             if is_incoming self (select_row t) then
               set_enrichment
                 (enrichment_of (spent_components v) (total_usd_spent v)
                    (btc_price_at_purchase v) (group_btc_amount v) p) t
             else if is_outgoing self (select_row t) then t\<lparr>is_swap := 1\<rparr>
             else t))"

section \<open>Example stores and oracles\<close>

text \<open>
  A freshly inserted row: the enrichment columns have their defaults. The example store
  \<open>ex_db\<close>, the oracle \<open>ex_client\<close> and the wallet are those of
  \<open>tests/test_swap_analysis.py\<close>, with shorter strings: two swaps (ids 1-2 and 3-5)
  and one plain inbound transfer (id 6).
\<close>

definition mk_txn ::
  "int \<Rightarrow> string \<Rightarrow> string \<Rightarrow> string option \<Rightarrow> string option \<Rightarrow> string option \<Rightarrow>
   string option \<Rightarrow> rat option \<Rightarrow> string option \<Rightarrow> txn" where
  "mk_txn i ch h ts f t a v c =
     \<lparr>row_id = i, chain = ch, tx_hash = h, block_timestamp = ts, from_address = f,
      to_address = t, asset = a, val = v, category = None, contract_address = c,
      unique_id = [], block_number = None, raw_value_wei = None, erc721_token_id = None,
      erc1155_metadata = None, is_swap = 0, swap_spent_asset = None,
      swap_spent_amount = None, swap_spent_usd = None, swap_btc_price_at_purchase = None,
      swap_btc_amount = None, swap_btc_price_current = None, swap_btc_value_usd = None,
      raw_json = None, created_at = None\<rparr>"

definition ex_client :: cg_client where
  "ex_client =
     \<lparr>get_current_price = (\<lambda>c. Some 30000),
      get_coin_id_by_contract =
        (\<lambda>p a. if p = ''ethereum'' \<and> a = ''0xa0b8'' then Some ''usd-coin'' else None),
      get_price_at_timestamp =
        (\<lambda>c t. if c = ''usd-coin'' then Some 1
               else if c = ''bitcoin'' then (if t = 1 then Some 25000 else Some 26000)
               else if c = ''ethereum'' \<and> t = 2 then Some 2000
               else None)\<rparr>"

definition ex_down :: cg_client where
  "ex_down =
     \<lparr>get_current_price = (\<lambda>c. None),
      get_coin_id_by_contract = (\<lambda>p a. None),
      get_price_at_timestamp = (\<lambda>c t. None)\<rparr>"

definition ex_env :: env where
  "ex_env =
     \<lparr>fromisoformat =
        (\<lambda>s. if s = ''d1+00:00'' then Some 1
             else if s = ''d2+00:00'' then Some 2
             else if s = ''d3+00:00'' then Some 3
             else None),
      utcnow = 99\<rparr>"

definition ex_self :: swap_analyzer where
  "ex_self = \<lparr>wallet_address = ''0xwallet'', cg = ex_client\<rparr>"

definition ex_db :: "txn list" where
  "ex_db =
     [mk_txn 1 ''ethereum'' ''0xswap1'' (Some ''d1Z'') (Some ''0xWallet'') (Some ''0xDex'')
        (Some ''USDC'') (Some 1000) (Some ''0xa0b8''),
      mk_txn 2 ''ethereum'' ''0xswap1'' (Some ''d1Z'') (Some ''0xDex'') (Some ''0xWallet'')
        (Some ''TOKEN'') (Some 500) (Some ''0xToken''),
      mk_txn 3 ''ethereum'' ''0xswap2'' (Some ''d2Z'') (Some ''0xWallet'') (Some ''0xDex2'')
        (Some ''ETH'') (Some (1 / 10)) None,
      mk_txn 4 ''ethereum'' ''0xswap2'' (Some ''d2Z'') (Some ''0xWallet'') (Some ''0xDex2'')
        (Some ''USDC'') (Some 100) (Some ''0xa0b8''),
      mk_txn 5 ''ethereum'' ''0xswap2'' (Some ''d2Z'') (Some ''0xDex2'') (Some ''0xWallet'')
        (Some ''TOKEN2'') (Some 750) (Some ''0xToken2''),
      mk_txn 6 ''ethereum'' ''0xnoswap'' (Some ''d3Z'') (Some ''0xFriend'') (Some ''0xWallet'')
        (Some ''ETH'') (Some (1 / 2)) None]"

text \<open>
  One transaction with an outgoing leg, an incoming leg and a leg between two other
  addresses.
\<close>

definition ex_db_third :: "txn list" where
  "ex_db_third =
     [mk_txn 1 ''ethereum'' ''0xswap1'' (Some ''d1Z'') (Some ''0xWallet'') (Some ''0xDex'')
        (Some ''USDC'') (Some 1000) (Some ''0xa0b8''),
      mk_txn 2 ''ethereum'' ''0xswap1'' (Some ''d1Z'') (Some ''0xDex'') (Some ''0xWallet'')
        (Some ''TOKEN'') (Some 500) (Some ''0xToken''),
      mk_txn 3 ''ethereum'' ''0xswap1'' (Some ''d1Z'') (Some ''0xDex'') (Some ''0xPool'')
        (Some ''TOKEN'') (Some 7) (Some ''0xToken'')]"


text \<open>
  One transaction hash seen on two chains: two outgoing legs with the same asset and
  contract address, one stored for \<open>ethereum\<close> and one for \<open>base\<close>, and an oracle that
  resolves the contract to a different coin on each chain. \<open>ex_db_chains_perm\<close> is the same
  store with the first two rows exchanged.
\<close>

definition ex_client_chains :: cg_client where
  "ex_client_chains =
     \<lparr>get_current_price = (\<lambda>c. Some 30000),
      get_coin_id_by_contract =
        (\<lambda>p a. if p = ''ethereum'' then Some ''usd-coin''
               else if p = ''base'' then Some ''bridged-usd''
               else None),
      get_price_at_timestamp =
        (\<lambda>c t. if c = ''usd-coin'' then Some 1
               else if c = ''bridged-usd'' then Some 2
               else if c = ''bitcoin'' then Some 25000
               else None)\<rparr>"

definition ex_self_chains :: swap_analyzer where
  "ex_self_chains = \<lparr>wallet_address = ''0xwallet'', cg = ex_client_chains\<rparr>"

definition ex_db_chains :: "txn list" where
  "ex_db_chains =
     [mk_txn 1 ''ethereum'' ''0xswap1'' (Some ''d1Z'') (Some ''0xWallet'') (Some ''0xDex'')
        (Some ''USDC'') (Some 10) (Some ''0xa0b8''),
      mk_txn 2 ''base'' ''0xswap1'' (Some ''d1Z'') (Some ''0xWallet'') (Some ''0xDex'')
        (Some ''USDC'') (Some 10) (Some ''0xa0b8''),
      mk_txn 3 ''ethereum'' ''0xswap1'' (Some ''d1Z'') (Some ''0xDex'') (Some ''0xWallet'')
        (Some ''TOKEN'') (Some 500) (Some ''0xToken'')]"

definition ex_db_chains_perm :: "txn list" where
  "ex_db_chains_perm = [ex_db_chains ! 1, ex_db_chains ! 0, ex_db_chains ! 2]"

text \<open>\<open>ex_db\<close> with its rows in another order.\<close>

definition ex_db_perm :: "txn list" where
  "ex_db_perm = [ex_db ! 5, ex_db ! 4, ex_db ! 3, ex_db ! 0, ex_db ! 2, ex_db ! 1]"

section \<open>Auxiliary facts\<close>

subsection \<open>Rows and updates\<close>

lemma select_row_sel [simp]:
  "row_id (select_row t) = row_id t"
  "chain (select_row t) = chain t"
  "tx_hash (select_row t) = tx_hash t"
  "block_timestamp (select_row t) = block_timestamp t"
  "from_address (select_row t) = from_address t"
  "to_address (select_row t) = to_address t"
  "asset (select_row t) = asset t"
  "val (select_row t) = val t"
  "category (select_row t) = category t"
  "contract_address (select_row t) = contract_address t"
  by (simp_all add: select_row_def row.defs)

lemma select_row_mark [simp]: "select_row (t\<lparr>is_swap := x\<rparr>) = select_row t"
  by (simp add: select_row_def row.defs)

lemma select_row_set_enrichment [simp]: "select_row (set_enrichment p t) = select_row t"
  by (simp add: select_row_def row.defs set_enrichment_def)

lemma row_id_set_enrichment [simp]: "row_id (set_enrichment p t) = row_id t"
  by (simp add: set_enrichment_def)

lemma tx_hash_set_enrichment [simp]: "tx_hash (set_enrichment p t) = tx_hash t"
  by (simp add: set_enrichment_def)

lemma set_enrichment_idem [simp]: "set_enrichment p (set_enrichment p t) = set_enrichment p t"
  by (simp add: set_enrichment_def)

lemma set_enrichment_mark [simp]: "set_enrichment p (t\<lparr>is_swap := 1\<rparr>) = set_enrichment p t"
  by (simp add: set_enrichment_def)

lemma executemany_map:
  assumes "\<And>t. row_id (f t) = row_id t" and "\<And>t. f (f t) = f t"
  shows "executemany f ids db = map (\<lambda>t. if row_id t \<in> set ids then f t else t) db"
  unfolding executemany_def
proof (induction ids arbitrary: db)
  case Nil
  then show ?case by simp
next
  case (Cons i ids)
  show ?case
    by (simp add: Cons.IH) (auto simp: update_where_id_def assms)
qed

lemma add_amount_keys: "fst ` set (add_amount k a kvs) = insert k (fst ` set kvs)"
  by (induction k a kvs rule: add_amount.induct) auto

lemma spent_step_dom:
  "fst ` set (fst st) \<subseteq> dom (snd st) \<Longrightarrow>
   fst ` set (fst (spent_step r st)) \<subseteq> dom (snd (spent_step r st))"
  by (auto simp: spent_step_def Let_def add_amount_keys split: option.splits)

lemma spent_fold_dom:
  "fst ` set (fst st) \<subseteq> dom (snd st) \<Longrightarrow>
   fst ` set (fst (fold spent_step rows st)) \<subseteq> dom (snd (fold spent_step rows st))"
  by (induction rows arbitrary: st) (simp_all add: spent_step_dom)

lemma call_err: "call x = Inl err \<Longrightarrow> err = CoinGeckoError"
  by (simp add: call_def split: option.splits)

lemma resolve_coin_id_err: "resolve_coin_id self ch a c = Inl err \<Longrightarrow> err = CoinGeckoError"
  by (auto simp: resolve_coin_id_def Let_def dest: call_err split: option.splits if_splits)

lemma price_component_err:
  "cbk (fst item) = Some ch \<Longrightarrow> price_component self ts cbk item = Inl err \<Longrightarrow> err = CoinGeckoError"
  by (auto simp: price_component_def dest: call_err resolve_coin_id_err split: option.splits sum.splits)

lemma price_components_err:
  "fst ` set items \<subseteq> dom cbk \<Longrightarrow> price_components self ts cbk items = Inl err \<Longrightarrow>
   err = CoinGeckoError"
proof (induction items)
  case Nil
  then show ?case by simp
next
  case (Cons item items)
  then show ?case
    by (auto dest: price_component_err split: sum.splits)
qed

lemma build_spent_components_err:
  "build_spent_components self outgoing ts = Inl err \<Longrightarrow> err = CoinGeckoError"
  unfolding build_spent_components_def aggregate_spent_def Let_def
  by (rule price_components_err [OF spent_fold_dom]) auto

lemma value_group_total: "\<exists>v. value_group self e h rows = Inr v"
proof (cases "build_spent_components self (filter (is_outgoing self) rows)
                (case tx_timestamp e rows of Some t \<Rightarrow> t | None \<Rightarrow> utcnow e)")
  case (Inl err)
  then have "err = CoinGeckoError" by (rule build_spent_components_err)
  with Inl show ?thesis by (simp add: value_group_def)
next
  case (Inr cs)
  then show ?thesis by (simp add: value_group_def Let_def)
qed



subsection \<open>Grouping\<close>

lemma map_of_append_row:
  "map_of (append_row h r g) k =
     (if k = h then Some ((case map_of g h of None \<Rightarrow> [] | Some rs \<Rightarrow> rs) @ [r])
      else map_of g k)"
  by (induction h r g rule: append_row.induct) auto

lemma keys_append_row: "fst ` set (append_row h r g) = insert h (fst ` set g)"
  by (induction h r g rule: append_row.induct) auto

lemma distinct_append_row:
  "distinct (map fst g) \<Longrightarrow> distinct (map fst (append_row h r g))"
  by (induction h r g rule: append_row.induct) (auto simp: keys_append_row)

lemma distinct_fold_append_row:
  "distinct (map fst g) \<Longrightarrow>
   distinct (map fst (fold (\<lambda>r g. append_row (tx_hash r) r g) rows g))"
  by (induction rows arbitrary: g) (simp_all add: distinct_append_row)

lemma keys_fold_append_row:
  "fst ` set (fold (\<lambda>r g. append_row (tx_hash r) r g) rows g) = fst ` set g \<union> tx_hash ` set rows"
  by (induction rows arbitrary: g) (auto simp: keys_append_row)

lemma map_of_fold_append_row:
  "map_of (fold (\<lambda>r g. append_row (tx_hash r) r g) rows g) k =
     (if k \<in> tx_hash ` set rows
      then Some ((case map_of g k of None \<Rightarrow> [] | Some rs \<Rightarrow> rs) @ filter (\<lambda>r. tx_hash r = k) rows)
      else map_of g k)"
proof (induction rows arbitrary: g)
  case Nil
  then show ?case by simp
next
  case (Cons r rows)
  have "map_of (fold (\<lambda>r g. append_row (tx_hash r) r g) (r # rows) g) k =
        map_of (fold (\<lambda>r g. append_row (tx_hash r) r g) rows (append_row (tx_hash r) r g)) k"
    by simp
  also have "\<dots> =
     (if k \<in> tx_hash ` set rows
      then Some ((case map_of (append_row (tx_hash r) r g) k of None \<Rightarrow> [] | Some rs \<Rightarrow> rs)
                 @ filter (\<lambda>r. tx_hash r = k) rows)
      else map_of (append_row (tx_hash r) r g) k)"
    by (rule Cons.IH)
  also have "\<dots> =
     (if k \<in> tx_hash ` set (r # rows)
      then Some ((case map_of g k of None \<Rightarrow> [] | Some rs \<Rightarrow> rs)
                 @ filter (\<lambda>r. tx_hash r = k) (r # rows))
      else map_of g k)"
  proof (cases "k = tx_hash r")
    case True
    have "filter (\<lambda>ra. tx_hash ra = tx_hash r) rows = []" if "tx_hash r \<notin> tx_hash ` set rows"
      using that by (induction rows) auto
    with True show ?thesis by (simp add: map_of_append_row)
  next
    case False
    then have "tx_hash r \<noteq> k" by simp
    with False show ?thesis by (simp add: map_of_append_row)
  qed
  finally show ?case .
qed

lemma group_transactions_distinct: "distinct (map fst (group_transactions db))"
  unfolding group_transactions_def by (rule distinct_fold_append_row) simp

lemma group_transactions_keys: "fst ` set (group_transactions db) = tx_hash ` set db"
  by (simp add: group_transactions_def keys_fold_append_row fetchall_def image_image)

lemma group_transactions_legs:
  assumes "g \<in> set (group_transactions db)"
  shows "snd g = legs db (fst g)"
proof -
  have "map_of (group_transactions db) (fst g) = Some (snd g)"
    using assms group_transactions_distinct by (metis map_of_is_SomeI prod.collapse)
  then show ?thesis
    by (simp add: group_transactions_def map_of_fold_append_row legs_def split: if_splits)
qed

lemma group_transactions_Nil: "group_transactions db = [] \<longleftrightarrow> db = []"
proof -
  have "group_transactions db = [] \<longleftrightarrow> fst ` set (group_transactions db) = {}" by simp
  also have "\<dots> \<longleftrightarrow> db = []" by (simp add: group_transactions_keys)
  finally show ?thesis .
qed

lemma row_id_map_select:
  "map select_row c = map select_row db \<Longrightarrow> map row_id c = map row_id db"
proof -
  assume "map select_row c = map select_row db"
  then have "map row_id (map select_row c) = map row_id (map select_row db)" by simp
  then show ?thesis by (simp add: comp_def)
qed

lemma fetchall_cong: "map select_row c = map select_row db \<Longrightarrow> fetchall c = fetchall db"
  by (simp add: fetchall_def)

lemma legs_cong: "map select_row c = map select_row db \<Longrightarrow> legs c h = legs db h"
  by (simp add: legs_def fetchall_def)

lemma set_legs: "set (legs db h) = {r \<in> select_row ` set db. tx_hash r = h}"
  by (auto simp: legs_def fetchall_def)

lemma mem_leg_ids:
  assumes d: "distinct (map row_id c)" and t: "t \<in> set c"
  shows "row_id t \<in> row_id ` set (filter P (legs c h)) \<longleftrightarrow> tx_hash t = h \<and> P (select_row t)"
proof
  assume "row_id t \<in> row_id ` set (filter P (legs c h))"
  then obtain r where r: "r \<in> set (legs c h)" "P r" "row_id r = row_id t" by auto
  from r(1) obtain t' where t': "t' \<in> set c" "r = select_row t'" "tx_hash r = h"
    by (auto simp: set_legs)
  have "inj_on row_id (set c)" using d by (simp add: distinct_map)
  moreover have "row_id t' = row_id t" using r(3) t'(2) by simp
  ultimately have "t' = t" using t t'(1) by (auto dest: inj_onD)
  with t' r(2) show "tx_hash t = h \<and> P (select_row t)" by auto
next
  assume a: "tx_hash t = h \<and> P (select_row t)"
  then have "select_row t \<in> set (filter P (legs c h))" using t by (auto simp: set_legs)
  then have "row_id (select_row t) \<in> row_id ` set (filter P (legs c h))" by (rule imageI)
  then show "row_id t \<in> row_id ` set (filter P (legs c h))" by simp
qed

subsection \<open>The loop\<close>

lemma mark_outgoing_map:
  "mark_outgoing c out = map (\<lambda>t. if row_id t \<in> row_id ` set out then t\<lparr>is_swap := 1\<rparr> else t) c"
proof (cases "out = []")
  case True
  then show ?thesis by (simp add: mark_outgoing_def)
next
  case False
  then show ?thesis by (simp add: mark_outgoing_def Let_def executemany_map)
qed

lemma enrich_incoming_map:
  "enrich_incoming c inc cs u bp ba p =
     map (\<lambda>t. if row_id t \<in> row_id ` set inc
               then set_enrichment (enrichment_of cs u bp ba p) t else t) c"
proof (cases "inc = []")
  case True
  then show ?thesis by (simp add: enrich_incoming_def)
next
  case False
  then show ?thesis by (simp add: enrich_incoming_def Let_def executemany_map)
qed

lemma settle_sel [simp]:
  "select_row (settle self e p db t) = select_row t"
  by (simp add: settle_def split: sum.splits)

lemma settle_row_id [simp]: "row_id (settle self e p db t) = row_id t"
  using settle_sel [of self e p db t] by (metis select_row_sel(1))

lemma settle_tx_hash [simp]: "tx_hash (settle self e p db t) = tx_hash t"
  using settle_sel [of self e p db t] by (metis select_row_sel(3))

lemma settle_cong:
  assumes "map select_row c = map select_row db"
  shows "settle self e p c t = settle self e p db t"
  by (simp add: settle_def qualifies_def outgoing_legs_def incoming_legs_def
        legs_cong [OF assms])

lemma analyze_group_conn:
  assumes d: "distinct (map row_id (conn st))" and g: "snd g = legs (conn st) (fst g)"
  shows "\<exists>st'. analyze_group self e p g st = Inr st' \<and>
           conn st' = map (\<lambda>t. if tx_hash t = fst g then settle self e p (conn st) t else t) (conn st)"
proof (cases "qualifies self (conn st) (fst g)")
  case False
  then have "analyze_group self e p g st = Inr st"
    by (auto simp: analyze_group_def Let_def g qualifies_def outgoing_legs_def incoming_legs_def)
  moreover have "map (\<lambda>t. if tx_hash t = fst g then settle self e p (conn st) t else t) (conn st)
                 = conn st"
    using False by (intro map_idI) (simp add: settle_def)
  ultimately show ?thesis by simp
next
  case True
  obtain v where v: "value_group self e (fst g) (legs (conn st) (fst g)) = Inr v"
    using value_group_total by blast
  let ?out = "filter (is_outgoing self) (legs (conn st) (fst g))"
  let ?inc = "filter (is_incoming self) (legs (conn st) (fst g))"
  let ?en = "enrichment_of (spent_components v) (total_usd_spent v) (btc_price_at_purchase v)
               (group_btc_amount v) p"
  let ?c' = "enrich_incoming (mark_outgoing (conn st) ?out) ?inc (spent_components v)
               (total_usd_spent v) (btc_price_at_purchase v) (group_btc_amount v) p"
  from True have ne: "?out \<noteq> []" "?inc \<noteq> []"
    by (simp_all add: qualifies_def outgoing_legs_def incoming_legs_def)
  have "\<exists>st'. analyze_group self e p g st = Inr st' \<and> conn st' = ?c'"
    using ne v by (simp add: analyze_group_def Let_def g)
  moreover have "?c' = map (\<lambda>t. if tx_hash t = fst g then settle self e p (conn st) t else t) (conn st)"
  proof -
    have "?c' = map (\<lambda>t. (if row_id t \<in> row_id ` set ?inc then set_enrichment ?en t else t))
                  (map (\<lambda>t. if row_id t \<in> row_id ` set ?out then t\<lparr>is_swap := 1\<rparr> else t) (conn st))"
      by (simp only: enrich_incoming_map mark_outgoing_map)
    also have "\<dots> = map (\<lambda>t. if tx_hash t = fst g then settle self e p (conn st) t else t) (conn st)"
      unfolding map_map
    proof (rule map_cong [OF refl])
      fix t assume t: "t \<in> set (conn st)"
      have o: "row_id t \<in> row_id ` set ?out \<longleftrightarrow> tx_hash t = fst g \<and> is_outgoing self (select_row t)"
        by (rule mem_leg_ids [OF d t])
      have i: "row_id t \<in> row_id ` set ?inc \<longleftrightarrow> tx_hash t = fst g \<and> is_incoming self (select_row t)"
        by (rule mem_leg_ids [OF d t])
      show "((\<lambda>t. if row_id t \<in> row_id ` set ?inc then set_enrichment ?en t else t) \<circ>
             (\<lambda>t. if row_id t \<in> row_id ` set ?out then t\<lparr>is_swap := 1\<rparr> else t)) t =
            (if tx_hash t = fst g then settle self e p (conn st) t else t)"
      proof (cases "tx_hash t = fst g")
        case False
        with o i show ?thesis by simp
      next
        case h: True
        with True v o i show ?thesis
          by (simp add: settle_def)
      qed
    qed
    finally show ?thesis .
  qed
  ultimately show ?thesis by auto
qed

lemma analyze_loop_conn:
  assumes "distinct (map row_id (conn st))"
    and "\<forall>g \<in> set gs. snd g = legs (conn st) (fst g)"
    and "distinct (map fst gs)"
  shows "\<exists>st'. analyze_loop self e p gs st = Inr st' \<and>
           conn st' = map (\<lambda>t. if tx_hash t \<in> fst ` set gs then settle self e p (conn st) t else t)
                        (conn st)"
  using assms
proof (induction gs arbitrary: st)
  case Nil
  then show ?case by simp
next
  case (Cons g gs)
  let ?f = "\<lambda>t. if tx_hash t = fst g then settle self e p (conn st) t else t"
  obtain st1 where st1: "analyze_group self e p g st = Inr st1" "conn st1 = map ?f (conn st)"
    using analyze_group_conn [of st g self e p] Cons.prems by auto
  have sel: "map select_row (conn st1) = map select_row (conn st)"
    by (simp add: st1(2) comp_def)
  have d1: "distinct (map row_id (conn st1))"
    using Cons.prems(1) row_id_map_select [OF sel] by simp
  have l1: "\<forall>g' \<in> set gs. snd g' = legs (conn st1) (fst g')"
    using Cons.prems(2) by (simp add: legs_cong [OF sel])
  have "distinct (map fst gs)" using Cons.prems(3) by simp
  from Cons.IH [OF d1 l1 this]
  obtain st' where st': "analyze_loop self e p gs st1 = Inr st'"
    "conn st' = map (\<lambda>t. if tx_hash t \<in> fst ` set gs then settle self e p (conn st1) t else t)
                  (conn st1)"
    by blast
  have ng: "fst g \<notin> fst ` set gs" using Cons.prems(3) by auto
  have "conn st' = map (\<lambda>t. if tx_hash t \<in> fst ` set (g # gs) then settle self e p (conn st) t else t)
                     (conn st)"
    unfolding st'(2) st1(2) map_map
  proof (rule map_cong [OF refl])
    fix t assume "t \<in> set (conn st)"
    show "((\<lambda>t. if tx_hash t \<in> fst ` set gs then settle self e p (map ?f (conn st)) t else t) \<circ> ?f) t
          = (if tx_hash t \<in> fst ` set (g # gs) then settle self e p (conn st) t else t)"
      using ng settle_cong [OF sel, of self e p] by (auto simp: st1(2))
  qed
  with st1(1) st'(1) show ?case by simp
qed

lemma analyze_store:
  assumes d: "distinct_ids db" and p: "get_current_price (cg self) ''bitcoin'' = Some p"
  shows "store (analyze self e db) = map (settle self e p db) db"
proof (cases "db = []")
  case True
  then show ?thesis by (simp add: analyze_def group_transactions_Nil)
next
  case False
  let ?st = "\<lparr>total_btc_amount = 0, swaps = 0, conn = db, warnings = []\<rparr>"
  have "\<exists>st'. analyze_loop self e p (group_transactions db) ?st = Inr st' \<and>
          conn st' = map (\<lambda>t. if tx_hash t \<in> fst ` set (group_transactions db)
                              then settle self e p (conn ?st) t else t) (conn ?st)"
    by (rule analyze_loop_conn)
       (use d in \<open>simp_all add: distinct_ids_def group_transactions_legs group_transactions_distinct\<close>)
  then obtain st' where st': "analyze_loop self e p (group_transactions db) ?st = Inr st'"
    "conn st' = map (\<lambda>t. if tx_hash t \<in> tx_hash ` set db then settle self e p db t else t) db"
    by (auto simp: group_transactions_keys)
  have "conn st' = map (settle self e p db) db"
    unfolding st'(2) by (rule map_cong) simp_all
  with st'(1) False p show ?thesis
    by (simp add: analyze_def group_transactions_Nil call_def)
qed

lemma analyze_store_error:
  "get_current_price (cg self) ''bitcoin'' = None \<Longrightarrow> store (analyze self e db) = db"
  by (simp add: analyze_def call_def Let_def)

subsection \<open>Reading a stored row\<close>

lemma row_by_id_map:
  assumes "distinct (map row_id db)" and "\<And>t. row_id (f t) = row_id t" and "t \<in> set db"
  shows "row_by_id (map f db) (row_id t) = Some (f t)"
  using assms(1,3)
proof (induction db)
  case Nil
  then show ?case by simp
next
  case (Cons a db)
  then show ?case by (auto simp: row_by_id_def assms(2))
qed

lemma row_by_id_self:
  assumes "distinct (map row_id db)" and "t \<in> set db"
  shows "row_by_id db (row_id t) = Some t"
  using row_by_id_map [of db "\<lambda>t. t" t] assms by simp

lemma row_by_id_analyze:
  assumes "distinct_ids db" and "get_current_price (cg self) ''bitcoin'' = Some p" and "t \<in> set db"
  shows "row_by_id (store (analyze self e db)) (row_id t) = Some (settle self e p db t)"
  using assms by (simp add: analyze_store row_by_id_map distinct_ids_def)

subsection \<open>The valuation of a group\<close>

lemma value_group_built:
  assumes "build_spent_components self (outgoing_legs self db h) (reference_time e db h) = Inr cs"
    and "cs \<noteq> []"
  shows "value_group self e h (legs db h) =
     Inr \<lparr>spent_components = cs,
          total_usd_spent = Some (sum_list (map usd_value cs)),
          btc_price_at_purchase = get_price_at_timestamp (cg self) ''bitcoin'' (reference_time e db h),
          group_btc_amount =
            (case get_price_at_timestamp (cg self) ''bitcoin'' (reference_time e db h) of
               None \<Rightarrow> None
             | Some q \<Rightarrow> if 0 < q then Some (sum_list (map usd_value cs) / q) else None),
          messages =
            (case get_price_at_timestamp (cg self) ''bitcoin'' (reference_time e db h) of
               None \<Rightarrow> [BtcLookupFailed h]
             | Some q \<Rightarrow> [])\<rparr>"
  using assms
  by (auto simp: value_group_def Let_def outgoing_legs_def reference_time_def split: option.splits)


lemma value_group_nothing:
  assumes "build_spent_components self (outgoing_legs self db h) (reference_time e db h) = Inr []"
  shows "value_group self e h (legs db h) =
     Inr \<lparr>spent_components = [], total_usd_spent = None, btc_price_at_purchase = None,
          group_btc_amount = None, messages = []\<rparr>"
  using assms by (simp add: value_group_def Let_def outgoing_legs_def reference_time_def)

lemma settle_incoming:
  assumes "outgoing_legs self db (tx_hash t) \<noteq> []" and "incoming_legs self db (tx_hash t) \<noteq> []"
    and "is_incoming self (select_row t)"
    and "value_group self e (tx_hash t) (legs db (tx_hash t)) = Inr v"
  shows "settle self e p db t =
     set_enrichment (enrichment_of (spent_components v) (total_usd_spent v)
        (btc_price_at_purchase v) (group_btc_amount v) p) t"
  using assms by (simp add: settle_def qualifies_def)

subsection \<open>Aggregation of the spent amounts\<close>

lemma add_amount_sum: "sum_list (map snd (add_amount k a kvs)) = sum_list (map snd kvs) + a"
  by (induction k a kvs rule: add_amount.induct) auto

lemma spent_values_Cons:
  "spent_values (r # rows) =
     (case val r of None \<Rightarrow> [] | Some a \<Rightarrow> if a \<le> 0 then [] else [a]) @ spent_values rows"
  by (simp add: spent_values_def)

lemma spent_fold_sum:
  "sum_list (map snd (fst (fold spent_step rows st))) =
     sum_list (map snd (fst st)) + sum_list (spent_values rows)"
proof (induction rows arbitrary: st)
  case Nil
  then show ?case by (simp add: spent_values_def)
next
  case (Cons r rows)
  show ?case
    by (simp add: Cons.IH spent_values_Cons)
       (simp add: spent_step_def Let_def add_amount_sum split: option.splits)
qed

lemma spent_fold_keys:
  "fst ` set (fst (fold spent_step rows st)) =
     fst ` set (fst st) \<union>
     {(asset r, contract_address r) | r. r \<in> set rows \<and> (\<exists>a. val r = Some a \<and> 0 < a)}"
proof (induction rows arbitrary: st)
  case Nil
  then show ?case by simp
next
  case (Cons r rows)
  have "fst ` set (fst (spent_step r st)) =
          fst ` set (fst st) \<union> (if \<exists>a. val r = Some a \<and> 0 < a then {(asset r, contract_address r)} else {})"
    by (auto simp: spent_step_def Let_def add_amount_keys split: option.splits)
  then show ?case
    by (simp add: Cons.IH) (auto split: if_splits)
qed

lemma aggregate_spent_sum:
  "sum_list (map snd (fst (aggregate_spent rows))) = sum_list (spent_values rows)"
  by (simp add: aggregate_spent_def spent_fold_sum)

lemma aggregate_spent_keys:
  "fst ` set (fst (aggregate_spent rows)) =
     {(asset r, contract_address r) | r. r \<in> set rows \<and> (\<exists>a. val r = Some a \<and> 0 < a)}"
  by (simp add: aggregate_spent_def spent_fold_keys)

lemma aggregate_spent_dom:
  "fst ` set (fst (aggregate_spent rows)) \<subseteq> dom (snd (aggregate_spent rows))"
  unfolding aggregate_spent_def by (rule spent_fold_dom) simp

subsection \<open>Pricing the components\<close>

lemma price_component_fields:
  "price_component self ts cbk item = Inr c \<Longrightarrow>
   sc_asset c = or_empty (fst (fst item)) \<and> amount c = snd item"
  by (auto simp: price_component_def split: option.splits sum.splits)

lemma price_components_fields:
  "price_components self ts cbk items = Inr cs \<Longrightarrow>
   map sc_asset cs = map (\<lambda>i. or_empty (fst (fst i))) items \<and> map amount cs = map snd items"
proof (induction items arbitrary: cs)
  case Nil
  then show ?case by simp
next
  case (Cons item items)
  then show ?case
    by (auto split: sum.splits dest: price_component_fields)
qed


lemma build_single:
  assumes "build_spent_components self rows ts = Inr [c]"
  shows "amount c = sum_list (spent_values rows)"
    and "\<And>r a. r \<in> set rows \<Longrightarrow> val r = Some a \<Longrightarrow> 0 < a \<Longrightarrow> or_empty (asset r) = sc_asset c"
proof -
  let ?g = "fst (aggregate_spent rows)"
  have pc: "price_components self ts (snd (aggregate_spent rows)) ?g = Inr [c]"
    using assms by (simp add: build_spent_components_def Let_def)
  from price_components_fields [OF pc]
  have f: "[sc_asset c] = map (\<lambda>i. or_empty (fst (fst i))) ?g" "[amount c] = map snd ?g"
    by simp_all
  then obtain item where g: "?g = [item]"
    by (cases ?g) auto
  with f have i: "sc_asset c = or_empty (fst (fst item))" "amount c = snd item" by simp_all
  from aggregate_spent_sum [of rows] g i show "amount c = sum_list (spent_values rows)" by simp
  fix r a assume r: "r \<in> set rows" "val r = Some a" "0 < a"
  then have "(asset r, contract_address r) \<in> fst ` set ?g"
    unfolding aggregate_spent_keys by blast
  with g have "fst item = (asset r, contract_address r)" by simp
  with i show "or_empty (asset r) = sc_asset c" by simp
qed

lemma value_group_components:
  assumes "build_spent_components self (outgoing_legs self db h) (reference_time e db h) = Inr cs"
  shows "\<exists>v. value_group self e h (legs db h) = Inr v \<and> spent_components v = cs"
proof (cases "cs = []")
  case True
  with assms value_group_nothing [of self db h e] show ?thesis by simp
next
  case False
  with value_group_built [OF assms] show ?thesis by simp
qed

subsection \<open>Removing a group from the store\<close>





subsection \<open>Warnings\<close>







subsection \<open>Dependence on the clock\<close>

lemma tx_timestamp_env:
  "fromisoformat e2 = fromisoformat e1 \<Longrightarrow> tx_timestamp e2 rows = tx_timestamp e1 rows"
  by (induction rows) (auto simp: parse_timestamp_def split: option.splits)

lemma price_component_ts:
  assumes "\<forall>c. get_price_at_timestamp (cg self) c ts2 = get_price_at_timestamp (cg self) c ts1"
  shows "price_component self ts2 cbk item = price_component self ts1 cbk item"
  using assms by (simp add: price_component_def split: option.splits sum.splits)

lemma price_components_ts:
  assumes "\<forall>c. get_price_at_timestamp (cg self) c ts2 = get_price_at_timestamp (cg self) c ts1"
  shows "price_components self ts2 cbk items = price_components self ts1 cbk items"
  by (induction items) (simp_all add: price_component_ts [OF assms] split: sum.splits)

lemma build_spent_components_ts:
  assumes "\<forall>c. get_price_at_timestamp (cg self) c ts2 = get_price_at_timestamp (cg self) c ts1"
  shows "build_spent_components self rows ts2 = build_spent_components self rows ts1"
  by (simp add: build_spent_components_def price_components_ts [OF assms])

lemma value_group_env:
  assumes f: "fromisoformat e2 = fromisoformat e1"
    and g: "\<forall>c. get_price_at_timestamp (cg self) c (utcnow e2) =
                get_price_at_timestamp (cg self) c (utcnow e1)"
  shows "value_group self e2 h rows = value_group self e1 h rows"
proof (cases "tx_timestamp e1 rows")
  case None
  show ?thesis
    by (simp only: value_group_def Let_def tx_timestamp_env [OF f] None option.case
          build_spent_components_ts [OF g] g [rule_format])
next
  case (Some ts)
  then show ?thesis
    by (simp add: value_group_def tx_timestamp_env [OF f])
qed

lemma settle_env:
  assumes "fromisoformat e2 = fromisoformat e1"
    and "\<forall>c. get_price_at_timestamp (cg self) c (utcnow e2) =
              get_price_at_timestamp (cg self) c (utcnow e1)"
  shows "settle self e2 p db t = settle self e1 p db t"
  by (simp add: settle_def value_group_env [OF assms])

lemma settle_idem: "settle self e p db (settle self e p db t) = settle self e p db t"
proof (cases "qualifies self db (tx_hash t)")
  case False
  then show ?thesis by (simp add: settle_def)
next
  case True
  obtain v where v: "value_group self e (tx_hash t) (legs db (tx_hash t)) = Inr v"
    using value_group_total by blast
  have s: "settle self e p db x =
     (if is_incoming self (select_row x) then
        set_enrichment (enrichment_of (spent_components v) (total_usd_spent v)
           (btc_price_at_purchase v) (group_btc_amount v) p) x
      else if is_outgoing self (select_row x) then x\<lparr>is_swap := 1\<rparr> else x)"
    if "tx_hash x = tx_hash t" for x
    using True v that by (simp add: settle_def)
  have "tx_hash (settle self e p db t) = tx_hash t" by simp
  from s [OF this] s [OF refl] show ?thesis by simp
qed

section \<open>Properties of the analyzer\<close>

text \<open>
  C10. On a store without records \<open>analyze\<close> returns the summary whose four entries are
  zero and leaves the store as it is, with nothing printed. The statement holds for every
  analyzer, so for every oracle, also one whose every call fails: no answer of the oracle
  is used, the run returns before the current price is requested.
\<close>

theorem analyze_empty_store:
  "analyze self e [] =
     \<lparr>result = Inr \<lparr>swaps_detected = 0, btc_amount = 0, btc_value_usd = 0, btc_price_current = 0\<rparr>,
      store = [], printed = []\<rparr>"
  by (simp add: analyze_def group_transactions_def fetchall_def)

text \<open>
  C3. In a store with distinct ids, a row whose transaction-hash group has an empty outgoing
  or an empty incoming partition is stored after the run exactly as before it, every
  column included. This holds whether the run returns a summary or fails on the current
  price.
\<close>

theorem non_swap_group_untouched:
  assumes "distinct_ids db" and "t \<in> set db"
    and "outgoing_legs self db (tx_hash t) = [] \<or> incoming_legs self db (tx_hash t) = []"
  shows "row_by_id (store (analyze self e db)) (row_id t) = Some t"
proof (cases "get_current_price (cg self) ''bitcoin''")
  case None
  then have "store (analyze self e db) = db" by (rule analyze_store_error)
  with assms(1,2) show ?thesis by (simp add: row_by_id_self distinct_ids_def)
next
  case (Some p)
  have "settle self e p db t = t" using assms(3) by (simp add: settle_def qualifies_def)
  with row_by_id_analyze [OF assms(1) Some assms(2)] show ?thesis by simp
qed

theorem non_swap_group_untouched_witness:
  "distinct_ids ex_db \<and> ex_db ! 5 \<in> set ex_db \<and>
   outgoing_legs ex_self ex_db (tx_hash (ex_db ! 5)) = [] \<and>
   row_by_id (store (analyze ex_self ex_env ex_db)) 6 = Some (ex_db ! 5)"
proof -
  have d: "distinct_ids ex_db" by code_simp
  have m: "ex_db ! 5 \<in> set ex_db" by code_simp
  have o: "outgoing_legs ex_self ex_db (tx_hash (ex_db ! 5)) = []" by code_simp
  have i: "row_id (ex_db ! 5) = 6" by code_simp
  from non_swap_group_untouched [OF d m disjI1 [OF o], of ex_env] d m o i show ?thesis by simp
qed

text \<open>
  C1, as amended. When the run completes (the current price is known), in a group whose
  outgoing and incoming partitions are both non-empty every leg that is outgoing or
  incoming ends with \<open>is_swap = 1\<close>, and a leg that is neither is stored unchanged.
\<close>

theorem swap_legs_flagged:
  assumes "distinct_ids db" and "get_current_price (cg self) ''bitcoin'' = Some p"
    and "t \<in> set db"
    and "outgoing_legs self db (tx_hash t) \<noteq> []" and "incoming_legs self db (tx_hash t) \<noteq> []"
  shows "\<exists>t'. row_by_id (store (analyze self e db)) (row_id t) = Some t' \<and>
           (is_outgoing self (select_row t) \<or> is_incoming self (select_row t) \<longrightarrow> is_swap t' = 1) \<and>
           (\<not> is_outgoing self (select_row t) \<and> \<not> is_incoming self (select_row t) \<longrightarrow> t' = t)"
proof -
  obtain v where "value_group self e (tx_hash t) (legs db (tx_hash t)) = Inr v"
    using value_group_total by blast
  with assms(4,5) have
    "(is_outgoing self (select_row t) \<or> is_incoming self (select_row t) \<longrightarrow>
        is_swap (settle self e p db t) = 1) \<and>
     (\<not> is_outgoing self (select_row t) \<and> \<not> is_incoming self (select_row t) \<longrightarrow>
        settle self e p db t = t)"
    by (simp add: settle_def qualifies_def set_enrichment_def)
  with row_by_id_analyze [OF assms(1,2,3)] show ?thesis by simp
qed

theorem swap_legs_flagged_witness:
  "distinct_ids ex_db_third \<and> get_current_price (cg ex_self) ''bitcoin'' = Some 30000 \<and>
   ex_db_third ! 1 \<in> set ex_db_third \<and>
   outgoing_legs ex_self ex_db_third (tx_hash (ex_db_third ! 1)) \<noteq> [] \<and>
   incoming_legs ex_self ex_db_third (tx_hash (ex_db_third ! 1)) \<noteq> [] \<and>
   is_incoming ex_self (select_row (ex_db_third ! 1)) \<and>
   (\<exists>t'. row_by_id (store (analyze ex_self ex_env ex_db_third)) 2 = Some t' \<and> is_swap t' = 1)"
proof -
  have d: "distinct_ids ex_db_third" by code_simp
  have p: "get_current_price (cg ex_self) ''bitcoin'' = Some 30000" by code_simp
  have m: "ex_db_third ! 1 \<in> set ex_db_third" by code_simp
  have o: "outgoing_legs ex_self ex_db_third (tx_hash (ex_db_third ! 1)) \<noteq> []" by code_simp
  have i: "incoming_legs ex_self ex_db_third (tx_hash (ex_db_third ! 1)) \<noteq> []" by code_simp
  have q: "is_incoming ex_self (select_row (ex_db_third ! 1))" by code_simp
  have r: "row_id (ex_db_third ! 1) = 2" by code_simp
  from swap_legs_flagged [OF d p m o i, of ex_env] d p m o i q r show ?thesis by auto
qed

text \<open>
  C1 as stated fails: in \<open>ex_db_third\<close> all three rows share one transaction hash, the
  group has an outgoing and an incoming leg, the run completes, and the third leg, which
  is neither, keeps \<open>is_swap = 0\<close>.
\<close>

theorem third_party_leg_counterexample:
  "outgoing_legs ex_self ex_db_third ''0xswap1'' \<noteq> [] \<and>
   incoming_legs ex_self ex_db_third ''0xswap1'' \<noteq> [] \<and>
   map tx_hash ex_db_third = [''0xswap1'', ''0xswap1'', ''0xswap1''] \<and>
   result (analyze ex_self ex_env ex_db_third) =
     Inr \<lparr>swaps_detected = 1, btc_amount = 1 / 25, btc_value_usd = 1200,
          btc_price_current = 30000\<rparr> \<and>
   map is_swap (store (analyze ex_self ex_env ex_db_third)) = [1, 1, 0]"
  by code_simp



text \<open>
  C9, as amended. The constructor raises \<open>ValueError\<close> for the empty wallet address, and
  a run started with it ends with that error, the store unchanged and nothing printed,
  whatever the oracle, the clock and the store are: nothing was read. Every non-empty
  wallet address is accepted and lower-cased; there is no check of its form.
\<close>

theorem empty_wallet_rejected:
  "SwapAnalyzer_init [] client = Inl ValueError \<and>
   main [] client e db = \<lparr>result = Inl ValueError, store = db, printed = []\<rparr> \<and>
   (wallet \<noteq> [] \<longrightarrow>
      SwapAnalyzer_init wallet client = Inr \<lparr>wallet_address = lower wallet, cg = client\<rparr>)"
  by (simp add: SwapAnalyzer_init_def main_def)

theorem empty_wallet_rejected_witness:
  "main [] ex_down ex_env ex_db = \<lparr>result = Inl ValueError, store = ex_db, printed = []\<rparr> \<and>
   ''0xWallet'' \<noteq> [] \<and>
   SwapAnalyzer_init ''0xWallet'' ex_client = Inr \<lparr>wallet_address = lower ''0xWallet'', cg = ex_client\<rparr>"
  using empty_wallet_rejected [of ex_down ex_env ex_db "''0xWallet''"]
    empty_wallet_rejected [of ex_client ex_env ex_db "''0xWallet''"] by simp

text \<open>
  C9 as stated fails for a malformed address: \<open>not-an-address\<close> is accepted by the
  constructor and the run on \<open>ex_db\<close> returns a summary.
\<close>

theorem malformed_wallet_counterexample:
  "SwapAnalyzer_init ''not-an-address'' ex_client =
     Inr \<lparr>wallet_address = ''not-an-address'', cg = ex_client\<rparr> \<and>
   result (main ''not-an-address'' ex_client ex_env ex_db) =
     Inr \<lparr>swaps_detected = 0, btc_amount = 0, btc_value_usd = 0, btc_price_current = 30000\<rparr>"
proof -
  have "lower ''not-an-address'' = ''not-an-address''" by code_simp
  then have "SwapAnalyzer_init ''not-an-address'' ex_client =
     Inr \<lparr>wallet_address = ''not-an-address'', cg = ex_client\<rparr>"
    by (simp add: SwapAnalyzer_init_def)
  moreover have "result (main ''not-an-address'' ex_client ex_env ex_db) =
     Inr \<lparr>swaps_detected = 0, btc_amount = 0, btc_value_usd = 0, btc_price_current = 30000\<rparr>"
    by code_simp
  ultimately show ?thesis by simp
qed

text \<open>
  C6. For an incoming leg of a qualifying group whose spent components \<open>cs\<close> were built:
  with exactly one component, \<open>swap_spent_asset\<close> is that component's asset and
  \<open>swap_spent_amount\<close> its amount, which is the sum of the values of the group's outgoing
  legs that are neither \<open>NULL\<close> nor non-positive, all of which carry that asset; with
  more than one component, \<open>swap_spent_asset\<close> is \<open>MULTI\<close> and \<open>swap_spent_amount\<close>
  is absent.
\<close>

theorem spent_asset_fields:
  assumes "distinct_ids db" and "get_current_price (cg self) ''bitcoin'' = Some p"
    and "t \<in> set db"
    and "outgoing_legs self db (tx_hash t) \<noteq> []" and "incoming_legs self db (tx_hash t) \<noteq> []"
    and "is_incoming self (select_row t)"
    and "build_spent_components self (outgoing_legs self db (tx_hash t))
           (reference_time e db (tx_hash t)) = Inr cs"
  shows "\<exists>t'. row_by_id (store (analyze self e db)) (row_id t) = Some t' \<and>
           (\<forall>c. cs = [c] \<longrightarrow>
              swap_spent_asset t' = Some (sc_asset c) \<and>
              swap_spent_amount t' = Some (amount c) \<and>
              amount c = sum_list (spent_values (outgoing_legs self db (tx_hash t))) \<and>
              (\<forall>r \<in> set (outgoing_legs self db (tx_hash t)). \<forall>a.
                 val r = Some a \<and> 0 < a \<longrightarrow> or_empty (asset r) = sc_asset c)) \<and>
           (1 < length cs \<longrightarrow>
              swap_spent_asset t' = Some ''MULTI'' \<and> swap_spent_amount t' = None)"
proof -
  obtain v where v: "value_group self e (tx_hash t) (legs db (tx_hash t)) = Inr v"
    "spent_components v = cs"
    using value_group_components [OF assms(7)] by blast
  let ?t' = "settle self e p db t"
  have r: "row_by_id (store (analyze self e db)) (row_id t) = Some ?t'"
    by (rule row_by_id_analyze [OF assms(1,2,3)])
  have s: "?t' = set_enrichment (enrichment_of cs (total_usd_spent v)
        (btc_price_at_purchase v) (group_btc_amount v) p) t"
    using settle_incoming [OF assms(4,5,6) v(1), of p] v(2) by simp
  have one: "swap_spent_asset ?t' = Some (sc_asset c) \<and> swap_spent_amount ?t' = Some (amount c)"
    if "cs = [c]" for c
    using that by (simp add: s set_enrichment_def enrichment_of_def)
  have multi: "swap_spent_asset ?t' = Some ''MULTI'' \<and> swap_spent_amount ?t' = None"
    if "1 < length cs"
  proof -
    from that obtain c1 c2 rest where "cs = c1 # c2 # rest"
      by (cases cs; cases "tl cs") auto
    then show ?thesis by (simp add: s set_enrichment_def enrichment_of_def)
  qed
  have agg: "amount c = sum_list (spent_values (outgoing_legs self db (tx_hash t))) \<and>
             (\<forall>r \<in> set (outgoing_legs self db (tx_hash t)). \<forall>a.
                 val r = Some a \<and> 0 < a \<longrightarrow> or_empty (asset r) = sc_asset c)"
    if "cs = [c]" for c
    using build_single [of self "outgoing_legs self db (tx_hash t)" "reference_time e db (tx_hash t)" c]
      assms(7) that by blast
  from r one multi agg show ?thesis by blast
qed

theorem spent_asset_fields_witness:
  "distinct_ids ex_db \<and> get_current_price (cg ex_self) ''bitcoin'' = Some 30000 \<and>
   ex_db ! 1 \<in> set ex_db \<and> ex_db ! 4 \<in> set ex_db \<and>
   outgoing_legs ex_self ex_db (tx_hash (ex_db ! 1)) \<noteq> [] \<and>
   incoming_legs ex_self ex_db (tx_hash (ex_db ! 1)) \<noteq> [] \<and>
   outgoing_legs ex_self ex_db (tx_hash (ex_db ! 4)) \<noteq> [] \<and>
   incoming_legs ex_self ex_db (tx_hash (ex_db ! 4)) \<noteq> [] \<and>
   is_incoming ex_self (select_row (ex_db ! 1)) \<and> is_incoming ex_self (select_row (ex_db ! 4)) \<and>
   build_spent_components ex_self (outgoing_legs ex_self ex_db (tx_hash (ex_db ! 1)))
     (reference_time ex_env ex_db (tx_hash (ex_db ! 1))) =
     Inr [\<lparr>sc_asset = ''USDC'', amount = 1000, usd_price = 1\<rparr>] \<and>
   build_spent_components ex_self (outgoing_legs ex_self ex_db (tx_hash (ex_db ! 4)))
     (reference_time ex_env ex_db (tx_hash (ex_db ! 4))) =
     Inr [\<lparr>sc_asset = ''ETH'', amount = 1 / 10, usd_price = 2000\<rparr>,
          \<lparr>sc_asset = ''USDC'', amount = 100, usd_price = 1\<rparr>] \<and>
   (\<exists>t'. row_by_id (store (analyze ex_self ex_env ex_db)) 2 = Some t' \<and>
      swap_spent_asset t' = Some ''USDC'' \<and> swap_spent_amount t' = Some 1000) \<and>
   (\<exists>t'. row_by_id (store (analyze ex_self ex_env ex_db)) 5 = Some t' \<and>
      swap_spent_asset t' = Some ''MULTI'' \<and> swap_spent_amount t' = None)"
proof -
  have d: "distinct_ids ex_db" by code_simp
  have p: "get_current_price (cg ex_self) ''bitcoin'' = Some 30000" by code_simp
  have m1: "ex_db ! 1 \<in> set ex_db" by code_simp
  have m4: "ex_db ! 4 \<in> set ex_db" by code_simp
  have o1: "outgoing_legs ex_self ex_db (tx_hash (ex_db ! 1)) \<noteq> []" by code_simp
  have i1: "incoming_legs ex_self ex_db (tx_hash (ex_db ! 1)) \<noteq> []" by code_simp
  have o4: "outgoing_legs ex_self ex_db (tx_hash (ex_db ! 4)) \<noteq> []" by code_simp
  have i4: "incoming_legs ex_self ex_db (tx_hash (ex_db ! 4)) \<noteq> []" by code_simp
  have q1: "is_incoming ex_self (select_row (ex_db ! 1))" by code_simp
  have q4: "is_incoming ex_self (select_row (ex_db ! 4))" by code_simp
  have b1: "build_spent_components ex_self (outgoing_legs ex_self ex_db (tx_hash (ex_db ! 1)))
     (reference_time ex_env ex_db (tx_hash (ex_db ! 1))) =
     Inr [\<lparr>sc_asset = ''USDC'', amount = 1000, usd_price = 1\<rparr>]" by code_simp
  have b4: "build_spent_components ex_self (outgoing_legs ex_self ex_db (tx_hash (ex_db ! 4)))
     (reference_time ex_env ex_db (tx_hash (ex_db ! 4))) =
     Inr [\<lparr>sc_asset = ''ETH'', amount = 1 / 10, usd_price = 2000\<rparr>,
          \<lparr>sc_asset = ''USDC'', amount = 100, usd_price = 1\<rparr>]" by code_simp
  have r1: "row_id (ex_db ! 1) = 2" by code_simp
  have r4: "row_id (ex_db ! 4) = 5" by code_simp
  from spent_asset_fields [OF d p m1 o1 i1 q1 b1] r1
  have w1: "\<exists>t'. row_by_id (store (analyze ex_self ex_env ex_db)) 2 = Some t' \<and>
      swap_spent_asset t' = Some ''USDC'' \<and> swap_spent_amount t' = Some 1000"
    by auto
  from spent_asset_fields [OF d p m4 o4 i4 q4 b4] r4
  have w4: "\<exists>t'. row_by_id (store (analyze ex_self ex_env ex_db)) 5 = Some t' \<and>
      swap_spent_asset t' = Some ''MULTI'' \<and> swap_spent_amount t' = None"
    by auto
  from d p m1 m4 o1 i1 o4 i4 q1 q4 b1 b4 w1 w4 show ?thesis by blast
qed






text \<open>
  C4. A second run on the store the first run left, with the same analyzer (the same
  wallet and the same oracle), leaves every row as the first run left it: the enrichment
  is overwritten by the same values. The clock may have advanced between the runs; the
  oracle returning the same answers means here that its historical prices at the two
  clock readings agree, which matters only for a group without a parseable timestamp.
\<close>

theorem analyze_idempotent:
  assumes "distinct_ids db"
    and "fromisoformat e2 = fromisoformat e1"
    and "\<forall>c. get_price_at_timestamp (cg self) c (utcnow e2) =
              get_price_at_timestamp (cg self) c (utcnow e1)"
  shows "store (analyze self e2 (store (analyze self e1 db))) = store (analyze self e1 db)"
proof (cases "get_current_price (cg self) ''bitcoin''")
  case None
  then show ?thesis by (simp add: analyze_store_error)
next
  case (Some p)
  let ?db1 = "map (settle self e1 p db) db"
  have s1: "store (analyze self e1 db) = ?db1" by (rule analyze_store [OF assms(1) Some])
  have sel: "map select_row ?db1 = map select_row db" by (simp add: comp_def)
  have d1: "distinct_ids ?db1"
    by (simp only: distinct_ids_def row_id_map_select [OF sel] assms(1) [unfolded distinct_ids_def])
  have "store (analyze self e2 ?db1) = map (settle self e2 p ?db1) ?db1"
    by (rule analyze_store [OF d1 Some])
  also have "\<dots> = map (settle self e1 p db) ?db1"
    by (rule map_cong [OF refl]) (simp only: settle_cong [OF sel] settle_env [OF assms(2,3)])
  also have "\<dots> = ?db1" by (simp add: settle_idem)
  finally show ?thesis by (simp only: s1)
qed

theorem analyze_idempotent_witness:
  "distinct_ids ex_db \<and> utcnow (ex_env\<lparr>utcnow := 100\<rparr>) \<noteq> utcnow ex_env \<and>
   map is_swap (store (analyze ex_self ex_env ex_db)) = [1, 1, 1, 1, 1, 0] \<and>
   store (analyze ex_self (ex_env\<lparr>utcnow := 100\<rparr>) (store (analyze ex_self ex_env ex_db))) =
     store (analyze ex_self ex_env ex_db)"
proof -
  have d: "distinct_ids ex_db" by code_simp
  have f: "fromisoformat (ex_env\<lparr>utcnow := 100\<rparr>) = fromisoformat ex_env" by simp
  have g: "\<forall>c. get_price_at_timestamp (cg ex_self) c (utcnow (ex_env\<lparr>utcnow := 100\<rparr>)) =
              get_price_at_timestamp (cg ex_self) c (utcnow ex_env)"
    by (simp add: ex_self_def ex_client_def ex_env_def)
  have u: "utcnow (ex_env\<lparr>utcnow := 100\<rparr>) \<noteq> utcnow ex_env" by (simp add: ex_env_def)
  have m: "map is_swap (store (analyze ex_self ex_env ex_db)) = [1, 1, 1, 1, 1, 0]" by code_simp
  from analyze_idempotent [OF d f g] d u m show ?thesis by simp
qed

end
